theory Spec2Isabelle
  imports Main "HOL-Library.Word"
begin

section \<open>The screen and audio recorder of \<^verbatim>\<open>src/app/page.tsx\<close>\<close>

text \<open>
  The component \<^verbatim>\<open>Home\<close> keeps five React state variables and two refs, and
  talks to the browser: media streams and their tracks, one audio context per
  recording, one \<^verbatim>\<open>MediaRecorder\<close> per recording, object URLs. All of it is one
  record \<open>world\<close>; every handler of the component is a function from worlds to
  worlds. Objects the browser creates are numbered in order of creation, so that
  two streams never share a track and aliasing is visible. \<^verbatim>\<open>startRecording\<close>
  is asynchronous: it runs in three segments, and other events come between
  them.
\<close>

subsection \<open>Browser values\<close>

type_synonym byte = "8 word"

record blob =
  blobData :: "byte list"
  blobType :: string

definition blob_size :: "blob \<Rightarrow> nat" where
  "blob_size b = length (blobData b)"

text \<open>\<^verbatim>\<open>new Blob(parts, { type })\<close>: the parts' bytes, in order.\<close>

definition new_Blob :: "blob list \<Rightarrow> string \<Rightarrow> blob" where
  "new_Blob parts ty = \<lparr>blobData = concat (map blobData parts), blobType = ty\<rparr>"

text \<open>
  What a \<^verbatim>\<open>catch (err: unknown)\<close> can receive: an \<^verbatim>\<open>Error\<close> object with its
  message (a \<^verbatim>\<open>DOMException\<close> is one), or any other value.
\<close>

datatype thrown = ErrorObj string | NonError

text \<open>\<^verbatim>\<open>err instanceof Error ? err.message : 'Unknown error'\<close> (line 117).\<close>

fun err_text :: "thrown \<Rightarrow> string" where
  "err_text (ErrorObj m) = m"
| "err_text NonError = ''Unknown error''"

type_synonym track = nat

record media_stream =
  videoTracks :: "track list"
  audioTracks :: "track list"

definition getTracks :: "media_stream \<Rightarrow> track list" where
  "getTracks s = audioTracks s @ videoTracks s"

text \<open>
  An \<^verbatim>\<open>AudioContext\<close> with the one destination node the code creates on it:
  the destination's stream, the streams whose source nodes were connected to the
  destination (in order of connection), and how often \<^verbatim>\<open>close()\<close> was called.
\<close>

record audio_context =
  destinationStream :: media_stream
  connected :: "media_stream list"
  closeCalls :: nat

text \<open>
  A \<^verbatim>\<open>MediaRecorder\<close>. JavaScript shows the states \<^verbatim>\<open>inactive\<close> and
  \<^verbatim>\<open>recording\<close>; the model splits \<^verbatim>\<open>inactive\<close> in three, by what the
  browser still owes the recorder: never started, stopped with the final
  \<^verbatim>\<open>dataavailable\<close> and \<^verbatim>\<open>stop\<close> events still to come, and stopped for good.
\<close>

datatype recorder_state = RecInactive | RecRecording | RecFinalizing | RecStopped

text \<open>
  The handlers \<^verbatim>\<open>ondataavailable\<close> and \<^verbatim>\<open>onstop\<close> (lines 85 to 102) are
  closures of the run of \<^verbatim>\<open>startRecording\<close> that built the recorder; the
  variables they use are kept with the recorder.
\<close>

record media_recorder =
  recStream :: media_stream
  recMimeType :: string
  recTimeslice :: "nat option"
  recState :: recorder_state
  hScreenStream :: media_stream
  hMicStream :: media_stream
  hAudioContext :: nat

subsection \<open>The component's state and the browser's\<close>

text \<open>
  A run of \<^verbatim>\<open>startRecording\<close> that is suspended at one of its two
  \<^verbatim>\<open>await\<close>s, with the variables of its closure the rest of the run reads:
  the \<^verbatim>\<open>isRecording\<close> of the render that created the callback and, once
  the display capture is there, \<^verbatim>\<open>screenStream\<close>.
\<close>

datatype start_run = AwaitDisplay bool | AwaitMic bool media_stream | Settled

record world =
  \<comment> \<open>\<^verbatim>\<open>useState\<close>, lines 6 to 10\<close>
  isRecording :: bool
  recordedBlob :: "blob option"
  error :: string
  status :: string
  previewUrl :: "nat option"
  \<comment> \<open>\<^verbatim>\<open>useRef\<close>, lines 12 and 13\<close>
  mediaRecorderRef :: "nat option"
  recordedChunks :: "blob list"
  \<comment> \<open>the browser\<close>
  nextTrack :: nat
  stopCalls :: "track list"
  contexts :: "audio_context list"
  recorders :: "media_recorder list"
  onended :: "track \<Rightarrow> bool option"
  nextUrl :: nat
  objectUrls :: "(nat \<times> blob) list"
  effectCleanup :: "nat option"
  downloads :: "(string \<times> blob) list"
  startRuns :: "start_run list"

text \<open>
  \<open>startRuns\<close> are the runs of \<^verbatim>\<open>startRecording\<close> that reached the first
  \<^verbatim>\<open>await\<close>, in the order of the clicks.
  \<open>stopCalls\<close> logs every \<^verbatim>\<open>track.stop()\<close>; \<open>onended w t\<close> is the handler on
  track \<open>t\<close>, given by the value of \<^verbatim>\<open>isRecording\<close> its closure captured;
  \<open>objectUrls\<close> are the URLs created and not revoked; \<open>effectCleanup\<close> is the URL the
  pending cleanup of the effect of lines 151 to 157 will revoke; \<open>downloads\<close> logs
  the clicks on the download anchor.
\<close>

definition init :: world where
  "init = \<lparr>isRecording = False, recordedBlob = None, error = [],
     status = ''Ready to record'', previewUrl = None,
     mediaRecorderRef = None, recordedChunks = [],
     nextTrack = 0, stopCalls = [], contexts = [], recorders = [],
     onended = (\<lambda>t. None), nextUrl = 0, objectUrls = [],
     effectCleanup = None, downloads = [], startRuns = []\<rparr>"

text \<open>
  What the browser answers to one run of \<^verbatim>\<open>startRecording\<close>. A granted
  display capture has one video track and \<open>n\<close> audio tracks (none when the
  platform shares no screen audio); a granted microphone capture has one audio
  track. The three last fields say whether \<^verbatim>\<open>new AudioContext()\<close>,
  \<^verbatim>\<open>new MediaRecorder(...)\<close> and \<^verbatim>\<open>mediaRecorder.start(100)\<close> throw.
\<close>

record platform =
  mediaDevices :: bool
  getDisplayMediaPresent :: bool
  isSecureContext :: bool
  displayMedia :: "thrown + nat"
  userMedia :: "thrown option"
  audioContextThrows :: "thrown option"
  mediaRecorderThrows :: "thrown option"
  recorderStartThrows :: "thrown option"

subsection \<open>The effect on \<^verbatim>\<open>recordedBlob\<close> (lines 151 to 157)\<close>

text \<open>
  React runs the effect after a commit in which \<^verbatim>\<open>recordedBlob\<close> changed: first
  the cleanup the previous run returned, then the body.
\<close>

definition effect_recordedBlob :: "world \<Rightarrow> world" where
  "effect_recordedBlob w =
    (let w1 = (case effectCleanup w of
                 None \<Rightarrow> w
               | Some u \<Rightarrow> w\<lparr>objectUrls := filter (\<lambda>e. fst e \<noteq> u) (objectUrls w),
                             effectCleanup := None\<rparr>)
     in case recordedBlob w1 of
          None \<Rightarrow> w1
        | Some b \<Rightarrow>
            w1\<lparr>nextUrl := nextUrl w1 + 1,
               objectUrls := objectUrls w1 @ [(nextUrl w1, b)],
               previewUrl := Some (nextUrl w1),
               effectCleanup := Some (nextUrl w1)\<rparr>)"

subsection \<open>\<^verbatim>\<open>startRecording\<close> (lines 16 to 120)\<close>

definition msg_unsupported :: string where
  "msg_unsupported =
     ''Screen recording is not supported in this browser. Please use Chrome, Edge, or Firefox.''"

definition msg_insecure :: string where
  "msg_insecure =
     ''Screen recording requires HTTPS or localhost. Please access this page over HTTPS.''"

text \<open>
  The \<^verbatim>\<open>try\<close> block suspends at \<^verbatim>\<open>await getDisplayMedia\<close> (line 34) and
  at \<^verbatim>\<open>await getUserMedia\<close> (line 47), so it runs in three segments. Each
  segment returns what was thrown, if anything, with the world as it left it:
  what ran before the throw stays done.

  First segment, lines 18 to 31: the two texts and the capability checks. When
  it throws nothing, \<^verbatim>\<open>getDisplayMedia\<close> is called and the run is suspended.
\<close>

definition startRecording_checks :: "platform \<Rightarrow> world \<Rightarrow> thrown option \<times> world" where
  "startRecording_checks p w0 =
    (let w1 = w0\<lparr>error := [], status := ''Checking compatibility...''\<rparr> in
     if \<not> mediaDevices p \<or> \<not> getDisplayMediaPresent p then (Some (ErrorObj msg_unsupported), w1)
     else if \<not> isSecureContext p then (Some (ErrorObj msg_insecure), w1)
     else (None, w1\<lparr>status := ''Requesting permissions...''\<rparr>))"

text \<open>
  Second segment, line 34: the promise of \<^verbatim>\<open>getDisplayMedia\<close> settles. A
  rejection is thrown; a grant with \<open>nAudio\<close> audio tracks is the stream
  \<^verbatim>\<open>screenStream\<close>, whose tracks are new. Then \<^verbatim>\<open>getUserMedia\<close> is called
  and the run is suspended again.
\<close>

definition startRecording_display ::
    "thrown + nat \<Rightarrow> world \<Rightarrow> (thrown + media_stream) \<times> world" where
  "startRecording_display answer w2 =
    (case answer of
       Inl e \<Rightarrow> (Inl e, w2)
     | Inr nAudio \<Rightarrow>
         let v = nextTrack w2;
             screenStream = \<lparr>videoTracks = [v], audioTracks = [v + 1 ..< v + 1 + nAudio]\<rparr>;
             w3 = w2\<lparr>nextTrack := v + 1 + nAudio\<rparr>
         in (Inr screenStream, w3))"

text \<open>
  Third segment, lines 47 to 113: the promise of \<^verbatim>\<open>getUserMedia\<close> settles
  and the run goes on to its end. \<open>isRec\<close> is the value of \<^verbatim>\<open>isRecording\<close>
  in the render that created the callback (\<^verbatim>\<open>useCallback(..., [isRecording])\<close>);
  the \<^verbatim>\<open>onended\<close> handler of line 105 closes over it.
\<close>

definition startRecording_rest ::
    "bool \<Rightarrow> media_stream \<Rightarrow> platform \<Rightarrow> world \<Rightarrow> thrown option \<times> world" where
  "startRecording_rest isRec screenStream p w3 =
    (case userMedia p of
       Some e \<Rightarrow> (Some e, w3)
     | None \<Rightarrow>
         let m = nextTrack w3;
             micStream = \<lparr>videoTracks = [], audioTracks = [m]\<rparr>;
             w4 = w3\<lparr>nextTrack := m + 1\<rparr>
         in
         case audioContextThrows p of
           Some e \<Rightarrow> (Some e, w4)
         | None \<Rightarrow>
             let d = nextTrack w4;
                 destination = \<lparr>videoTracks = [], audioTracks = [d]\<rparr>;
                 screenAudioTracks = audioTracks screenStream;
                 screenSource =
                   (if length screenAudioTracks > 0
                    then [\<lparr>videoTracks = [], audioTracks = [screenAudioTracks ! 0]\<rparr>]
                    else []);
                 audioContext = \<lparr>destinationStream = destination,
                                 connected = screenSource @ [micStream],
                                 closeCalls = 0\<rparr>;
                 cid = length (contexts w4);
                 w5 = w4\<lparr>nextTrack := d + 1, contexts := contexts w4 @ [audioContext]\<rparr>;
                 combinedStream = \<lparr>videoTracks = videoTracks screenStream,
                                   audioTracks = audioTracks destination\<rparr>;
                 w6 = w5\<lparr>recordedChunks := []\<rparr>
             in
             case mediaRecorderThrows p of
               Some e \<Rightarrow> (Some e, w6)
             | None \<Rightarrow>
                 let rid = length (recorders w6);
                     mediaRecorder = \<lparr>recStream = combinedStream,
                                      recMimeType = ''video/webm;codecs=vp9,opus'',
                                      recTimeslice = None,
                                      recState = RecInactive,
                                      hScreenStream = screenStream,
                                      hMicStream = micStream,
                                      hAudioContext = cid\<rparr>;
                     w7 = w6\<lparr>recorders := recorders w6 @ [mediaRecorder],
                             mediaRecorderRef := Some rid,
                             onended := (onended w6)(videoTracks screenStream ! 0 \<mapsto> isRec)\<rparr>
                 in
                 case recorderStartThrows p of
                   Some e \<Rightarrow> (Some e, w7)
                 | None \<Rightarrow>
                     (None,
                      w7\<lparr>recorders := (recorders w7)
                             [rid := mediaRecorder\<lparr>recTimeslice := Some 100,
                                                    recState := RecRecording\<rparr>],
                          isRecording := True,
                          status := ''Recording in progress...''\<rparr>))"

text \<open>
  The whole \<^verbatim>\<open>try\<close> block when nothing happens between its segments: the
  three segments one after the other, stopping at the first throw.
\<close>

definition startRecording_try :: "bool \<Rightarrow> platform \<Rightarrow> world \<Rightarrow> thrown option \<times> world" where
  "startRecording_try isRec p w0 =
    (case startRecording_checks p w0 of
       (Some e, w2) \<Rightarrow> (Some e, w2)
     | (None, w2) \<Rightarrow>
         (case startRecording_display (displayMedia p) w2 of
            (Inl e, w3) \<Rightarrow> (Some e, w3)
          | (Inr screenStream, w3) \<Rightarrow> startRecording_rest isRec screenStream p w3))"

text \<open>The \<^verbatim>\<open>catch\<close> block (lines 115 to 119).\<close>

definition startRecording_catch :: "thrown \<Rightarrow> world \<Rightarrow> world" where
  "startRecording_catch err w =
     w\<lparr>error := ''Failed to start recording: '' @ err_text err,
       status := ''Ready to record''\<rparr>"

text \<open>A run of \<^verbatim>\<open>startRecording\<close> with nothing between its segments.\<close>

definition startRecording :: "bool \<Rightarrow> platform \<Rightarrow> world \<Rightarrow> world" where
  "startRecording isRec p w =
     (case startRecording_try isRec p w of
        (None, w') \<Rightarrow> w'
      | (Some err, w') \<Rightarrow> startRecording_catch err w')"

subsection \<open>The recorder's handlers (lines 85 to 102)\<close>

definition ondataavailable :: "blob \<Rightarrow> world \<Rightarrow> world" where
  "ondataavailable d w =
     (if blob_size d > 0 then w\<lparr>recordedChunks := recordedChunks w @ [d]\<rparr> else w)"

text \<open>
  \<open>onstop r\<close> is the handler of recorder \<open>r\<close>. \<^verbatim>\<open>setRecordedBlob(blob)\<close> stores a
  new object, so the effect on \<^verbatim>\<open>recordedBlob\<close> runs each time.
\<close>

definition onstop :: "media_recorder \<Rightarrow> world \<Rightarrow> world" where
  "onstop r w =
    (let blob = new_Blob (recordedChunks w) ''video/webm'';
         w1 = w\<lparr>recordedBlob := Some blob, status := ''Recording completed''\<rparr>;
         w2 = w1\<lparr>stopCalls := stopCalls w1 @ getTracks (hScreenStream r)\<rparr>;
         w3 = w2\<lparr>stopCalls := stopCalls w2 @ getTracks (hMicStream r)\<rparr>;
         w4 = w3\<lparr>contexts := (contexts w3)
                 [hAudioContext r :=
                    (contexts w3 ! hAudioContext r)
                      \<lparr>closeCalls := closeCalls (contexts w3 ! hAudioContext r) + 1\<rparr>]\<rparr>
     in effect_recordedBlob w4)"

subsection \<open>\<^verbatim>\<open>stopRecording\<close> (lines 122 to 127) and the \<^verbatim>\<open>onended\<close> handler (lines 105 to 109)\<close>

text \<open>
  \<^verbatim>\<open>MediaRecorder.stop()\<close>: nothing on a recorder that is not recording;
  otherwise the recorder becomes inactive and the browser will fire a last
  \<^verbatim>\<open>dataavailable\<close> and then \<^verbatim>\<open>stop\<close>.
\<close>

definition recorder_stop :: "nat \<Rightarrow> world \<Rightarrow> world" where
  "recorder_stop rid w =
     (if rid < length (recorders w) \<and> recState (recorders w ! rid) = RecRecording
      then w\<lparr>recorders := (recorders w)[rid := (recorders w ! rid)\<lparr>recState := RecFinalizing\<rparr>]\<rparr>
      else w)"

text \<open>\<open>isRec\<close> is the \<^verbatim>\<open>isRecording\<close> of the render that created the callback.\<close>

definition stopRecording :: "bool \<Rightarrow> world \<Rightarrow> world" where
  "stopRecording isRec w =
     (case mediaRecorderRef w of
        None \<Rightarrow> w
      | Some rid \<Rightarrow>
          if isRec then (recorder_stop rid w)\<lparr>isRecording := False\<rparr> else w)"

text \<open>
  The handler is created inside \<^verbatim>\<open>startRecording\<close>: its \<^verbatim>\<open>isRecording\<close> and
  its \<^verbatim>\<open>stopRecording\<close> are those of the render that created that callback.
\<close>

definition onended_handler :: "bool \<Rightarrow> world \<Rightarrow> world" where
  "onended_handler isRec w = (if isRec then stopRecording isRec w else w)"

subsection \<open>\<^verbatim>\<open>downloadRecording\<close> (lines 129 to 141) and \<^verbatim>\<open>resetRecording\<close> (lines 143 to 148)\<close>

text \<open>
  \<open>blob\<close> is the \<^verbatim>\<open>recordedBlob\<close> of the render that created the callback, \<open>stamp\<close>
  what \<^verbatim>\<open>new Date().toISOString()\<close> returns. The URL is created and revoked
  within the call, the anchor appended and removed.
\<close>

definition downloadRecording :: "blob option \<Rightarrow> string \<Rightarrow> world \<Rightarrow> world" where
  "downloadRecording blob stamp w =
     (case blob of
        None \<Rightarrow> w
      | Some b \<Rightarrow>
          w\<lparr>nextUrl := nextUrl w + 1,
            downloads := downloads w @ [(''screen-recording-'' @ take 19 stamp @ ''.webm'', b)]\<rparr>)"

text \<open>
  The four setters; when \<^verbatim>\<open>recordedBlob\<close> was set, \<^verbatim>\<open>setRecordedBlob(null)\<close>
  changes it and the effect runs.
\<close>

definition resetRecording :: "world \<Rightarrow> world" where
  "resetRecording w =
    (let w1 = w\<lparr>recordedBlob := None, previewUrl := None,
                status := ''Ready to record'', error := []\<rparr>
     in if recordedBlob w \<noteq> None then effect_recordedBlob w1 else w1)"

subsection \<open>Events\<close>

text \<open>
  The buttons are rendered by lines 219 to 257: Start when
  \<^verbatim>\<open>!isRecording && !recordedBlob\<close>, Stop when \<^verbatim>\<open>isRecording\<close>, Download and
  New Recording when \<^verbatim>\<open>recordedBlob\<close>. A click runs the callback of the current
  render.

  A click on Start runs the first segment of \<^verbatim>\<open>startRecording\<close> and, when
  the checks pass, leaves the run suspended in \<open>startRuns\<close>; this sets neither
  \<^verbatim>\<open>isRecording\<close> nor \<^verbatim>\<open>recordedBlob\<close>, so the Start button stays
  rendered. \<open>DisplayAnswer k\<close> and \<open>MicAnswer k\<close> are the browser settling the
  promise run \<open>k\<close> is waiting for: the run resumes with its next segment, and
  whatever it throws goes to the \<^verbatim>\<open>catch\<close> block. \<open>ClickStart\<close> reads the
  capability fields of its \<open>platform\<close>, \<open>MicAnswer\<close> the fields from
  \<open>userMedia\<close> on.

  The browser fires \<^verbatim>\<open>dataavailable\<close> on a recorder that is recording or
  finalizing, \<^verbatim>\<open>stop\<close> once on a recorder that is finalizing, and
  \<^verbatim>\<open>ended\<close> on a track.
\<close>

datatype event =
    ClickStart platform
  | DisplayAnswer nat "thrown + nat"
  | MicAnswer nat platform
  | ClickStop
  | ClickDownload string
  | ClickReset
  | DataAvailable nat blob
  | StopEvent nat
  | TrackEnded track

definition resume_display :: "nat \<Rightarrow> bool \<Rightarrow> thrown + nat \<Rightarrow> world \<Rightarrow> world" where
  "resume_display k isRec answer w =
     (case startRecording_display answer w of
        (Inl e, w') \<Rightarrow> startRecording_catch e (w'\<lparr>startRuns := (startRuns w')[k := Settled]\<rparr>)
      | (Inr screenStream, w') \<Rightarrow>
          w'\<lparr>startRuns := (startRuns w')[k := AwaitMic isRec screenStream]\<rparr>)"

definition resume_mic :: "nat \<Rightarrow> bool \<Rightarrow> media_stream \<Rightarrow> platform \<Rightarrow> world \<Rightarrow> world" where
  "resume_mic k isRec screenStream p w =
     (case startRecording_rest isRec screenStream p (w\<lparr>startRuns := (startRuns w)[k := Settled]\<rparr>) of
        (None, w') \<Rightarrow> w'
      | (Some e, w') \<Rightarrow> startRecording_catch e w')"

fun step :: "world \<Rightarrow> event \<Rightarrow> world" where
  "step w (ClickStart p) =
     (if \<not> isRecording w \<and> recordedBlob w = None
      then (case startRecording_checks p w of
              (Some e, w') \<Rightarrow> startRecording_catch e w'
            | (None, w') \<Rightarrow> w'\<lparr>startRuns := startRuns w' @ [AwaitDisplay (isRecording w)]\<rparr>)
      else w)"
| "step w (DisplayAnswer k answer) =
     (if k < length (startRuns w)
      then (case startRuns w ! k of
              AwaitDisplay isRec \<Rightarrow> resume_display k isRec answer w
            | AwaitMic isRec screenStream \<Rightarrow> w
            | Settled \<Rightarrow> w)
      else w)"
| "step w (MicAnswer k p) =
     (if k < length (startRuns w)
      then (case startRuns w ! k of
              AwaitDisplay isRec \<Rightarrow> w
            | AwaitMic isRec screenStream \<Rightarrow> resume_mic k isRec screenStream p w
            | Settled \<Rightarrow> w)
      else w)"
| "step w ClickStop =
     (if isRecording w then stopRecording (isRecording w) w else w)"
| "step w (ClickDownload stamp) =
     (if recordedBlob w \<noteq> None then downloadRecording (recordedBlob w) stamp w else w)"
| "step w ClickReset =
     (if recordedBlob w \<noteq> None then resetRecording w else w)"
| "step w (DataAvailable rid d) =
     (if rid < length (recorders w) \<and>
         (recState (recorders w ! rid) = RecRecording \<or> recState (recorders w ! rid) = RecFinalizing)
      then ondataavailable d w else w)"
| "step w (StopEvent rid) =
     (if rid < length (recorders w) \<and> recState (recorders w ! rid) = RecFinalizing
      then onstop (recorders w ! rid)
             (w\<lparr>recorders := (recorders w)[rid := (recorders w ! rid)\<lparr>recState := RecStopped\<rparr>]\<rparr>)
      else w)"
| "step w (TrackEnded t) =
     (case onended w t of None \<Rightarrow> w | Some isRec \<Rightarrow> onended_handler isRec w)"

definition run :: "world \<Rightarrow> event list \<Rightarrow> world" where
  "run w evs = foldl step w evs"

text \<open>
  The events of one run of \<^verbatim>\<open>startRecording\<close> that nothing interrupts: the
  click and the two answers of the browser \<open>p\<close>, for the run numbered \<open>k\<close>.
\<close>

definition start_events :: "nat \<Rightarrow> platform \<Rightarrow> event list" where
  "start_events k p = [ClickStart p, DisplayAnswer k (displayMedia p), MicAnswer k p]"

subsection \<open>The session states of the specification\<close>

text \<open>
  The component has no state variable of this type; the states are read off the
  variables the way the render reads them: the badge is red when
  \<^verbatim>\<open>isRecording\<close>, the error box is shown when \<^verbatim>\<open>error\<close> is not empty, the
  badge is green when \<^verbatim>\<open>recordedBlob\<close> is set. The two states a run of
  \<^verbatim>\<open>startRecording\<close> passes through are read off the status text it sets.
\<close>

datatype session_state =
  Idle | CheckingCompatibility | RequestingPermissions | Recording | Completed | Errored

definition session_state :: "world \<Rightarrow> session_state" where
  "session_state w =
     (if isRecording w then Recording
      else if error w \<noteq> [] then Errored
      else if recordedBlob w \<noteq> None then Completed
      else if status w = ''Checking compatibility...'' then CheckingCompatibility
      else if status w = ''Requesting permissions...'' then RequestingPermissions
      else Idle)"

subsection \<open>What one recording holds, and how often it was released\<close>

text \<open>
  The tracks of the two captures a recorder's \<^verbatim>\<open>onstop\<close> handler stops, and
  the reading of the logs for one recorder: \<open>releases w r k\<close> says that the audio
  context of \<open>r\<close> was closed \<open>k\<close> times and every track of its two captures was
  stopped \<open>k\<close> times.
\<close>

definition session_tracks :: "media_recorder \<Rightarrow> track list" where
  "session_tracks r = getTracks (hScreenStream r) @ getTracks (hMicStream r)"

definition releases :: "world \<Rightarrow> media_recorder \<Rightarrow> nat \<Rightarrow> bool" where
  "releases w r k \<longleftrightarrow>
     closeCalls (contexts w ! hAudioContext r) = k \<and>
     (\<forall>t \<in> set (session_tracks r). count_list (stopCalls w) t = k)"

text \<open>
  A session no control reaches: the first recorder is recording while
  \<^verbatim>\<open>mediaRecorderRef\<close> points to a later one.
\<close>

definition orphaned :: "world \<Rightarrow> bool" where
  "orphaned w \<longleftrightarrow>
     recorders w \<noteq> [] \<and> recState (recorders w ! 0) = RecRecording \<and>
     (\<exists>k. mediaRecorderRef w = Some k \<and> 0 < k)"

subsection \<open>Inputs used in the examples\<close>

text \<open>
  A browser that supports and grants everything, with \<open>n\<close> audio tracks on the
  shared screen; one where the microphone is denied after the screen was
  granted; one where everything is granted and \<^verbatim>\<open>mediaRecorder.start(100)\<close>
  throws; a data segment of the recorder.
\<close>

definition all_granted :: "nat \<Rightarrow> platform" where
  "all_granted n = \<lparr>mediaDevices = True, getDisplayMediaPresent = True, isSecureContext = True,
     displayMedia = Inr n, userMedia = None, audioContextThrows = None,
     mediaRecorderThrows = None, recorderStartThrows = None\<rparr>"

definition mic_denied :: platform where
  "mic_denied = (all_granted 1)\<lparr>userMedia := Some (ErrorObj ''Permission denied'')\<rparr>"

definition start_throws :: platform where
  "start_throws = (all_granted 1)\<lparr>recorderStartThrows := Some (ErrorObj ''The operation is not supported.'')\<rparr>"

text \<open>
  Two clicks on Start, the second while the first run waits for the display
  capture; then the browser grants both runs everything.
\<close>

definition double_start :: "event list" where
  "double_start = [ClickStart (all_granted 1), ClickStart (all_granted 1),
     DisplayAnswer 0 (Inr 1), DisplayAnswer 1 (Inr 1),
     MicAnswer 0 (all_granted 1), MicAnswer 1 (all_granted 1)]"

definition chunk :: "byte list \<Rightarrow> blob" where
  "chunk bs = \<lparr>blobData = bs, blobType = ''video/webm;codecs=vp9,opus''\<rparr>"

section \<open>Properties\<close>

subsection \<open>Running event lists\<close>

lemmas start_defs = startRecording_def startRecording_try_def startRecording_checks_def
  startRecording_display_def startRecording_rest_def startRecording_catch_def Let_def

lemmas run_simps = run_def start_events_def double_start_def resume_display_def resume_mic_def start_defs
  all_granted_def mic_denied_def start_throws_def init_def chunk_def blob_size_def
  ondataavailable_def onended_handler_def stopRecording_def recorder_stop_def onstop_def
  effect_recordedBlob_def resetRecording_def new_Blob_def getTracks_def session_state_def

lemma run_Nil: "run w [] = w"
  by (simp add: run_def)

lemma run_Cons: "run w (e # evs) = run (step w e) evs"
  by (simp add: run_def)

lemma run_append: "run w (xs @ ys) = run (run w xs) ys"
  by (simp add: run_def)

lemma chunk_simps: "blob_size (chunk bs) = length bs" "blobData (chunk bs) = bs"
  by (simp_all add: chunk_def blob_size_def)

lemma new_Blob_size:
  "blob_size (new_Blob ds ty) = sum_list (map blob_size ds)"
  by (induction ds) (simp_all add: blob_size_def new_Blob_def)

lemma run_data:
  "rid < length (recorders w) \<Longrightarrow>
   recState (recorders w ! rid) = RecRecording \<or> recState (recorders w ! rid) = RecFinalizing \<Longrightarrow>
   run w (map (DataAvailable rid) ds) =
     w\<lparr>recordedChunks := recordedChunks w @ filter (\<lambda>d. 0 < blob_size d) ds\<rparr>"
proof (induction ds arbitrary: w)
  case Nil
  then show ?case by (simp add: run_Nil)
next
  case (Cons d ds)
  let ?w = "step w (DataAvailable rid d)"
  have s: "?w = ondataavailable d w" using Cons.prems by auto
  have r: "recorders ?w = recorders w" by (simp add: s ondataavailable_def)
  have "run ?w (map (DataAvailable rid) ds) =
          ?w\<lparr>recordedChunks := recordedChunks ?w @ filter (\<lambda>d. 0 < blob_size d) ds\<rparr>"
    using Cons.prems by (intro Cons.IH) (simp_all only: r)
  then show ?case
    by (simp add: run_Cons s ondataavailable_def del: step.simps)
qed

subsection \<open>What a run of \<^verbatim>\<open>startRecording\<close> leaves\<close>

lemma startRecording_try_frame:
  "recordedBlob (snd (startRecording_try isRec p w)) = recordedBlob w \<and>
   previewUrl (snd (startRecording_try isRec p w)) = previewUrl w \<and>
   objectUrls (snd (startRecording_try isRec p w)) = objectUrls w \<and>
   effectCleanup (snd (startRecording_try isRec p w)) = effectCleanup w \<and>
   stopCalls (snd (startRecording_try isRec p w)) = stopCalls w"
  by (simp add: start_defs split: sum.split option.split)

lemma startRecording_try_isRecording:
  "fst (startRecording_try isRec p w) = Some e \<Longrightarrow>
   isRecording (snd (startRecording_try isRec p w)) = isRecording w"
  by (auto simp: start_defs split: sum.splits option.splits if_splits)

text \<open>What is thrown is what the first failing sub-step threw.\<close>

lemma start_failure_kind:
  "fst (startRecording_try isRec p w) =
     (if \<not> mediaDevices p \<or> \<not> getDisplayMediaPresent p then Some (ErrorObj msg_unsupported)
      else if \<not> isSecureContext p then Some (ErrorObj msg_insecure)
      else case displayMedia p of
             Inl e \<Rightarrow> Some e
           | Inr n \<Rightarrow>
               (case userMedia p of
                  Some e \<Rightarrow> Some e
                | None \<Rightarrow>
                    (case audioContextThrows p of
                       Some e \<Rightarrow> Some e
                     | None \<Rightarrow>
                         (case mediaRecorderThrows p of
                            Some e \<Rightarrow> Some e
                          | None \<Rightarrow> recorderStartThrows p))))"
  by (simp add: start_defs split: sum.split option.split)

lemma startRecording_failed:
  "fst (startRecording_try isRec p w) = Some e \<Longrightarrow>
   startRecording isRec p w = startRecording_catch e (snd (startRecording_try isRec p w))"
  by (cases "startRecording_try isRec p w") (simp add: startRecording_def)

lemma start_ok_iff:
  "fst (startRecording_try isRec p w) = None \<longleftrightarrow>
     mediaDevices p \<and> getDisplayMediaPresent p \<and> isSecureContext p \<and>
     (\<exists>n. displayMedia p = Inr n) \<and> userMedia p = None \<and> audioContextThrows p = None \<and>
     mediaRecorderThrows p = None \<and> recorderStartThrows p = None"
  by (auto simp: start_defs split: sum.splits option.splits)

lemma start_ok_state:
  assumes "fst (startRecording_try isRec p w) = None"
  shows "isRecording (startRecording isRec p w) \<and>
         recordedChunks (startRecording isRec p w) = [] \<and>
         mediaRecorderRef (startRecording isRec p w) = Some (length (recorders w)) \<and>
         length (recorders (startRecording isRec p w)) = Suc (length (recorders w)) \<and>
         recState (recorders (startRecording isRec p w) ! length (recorders w)) = RecRecording \<and>
         recordedBlob (startRecording isRec p w) = recordedBlob w \<and>
         error (startRecording isRec p w) = [] \<and>
         status (startRecording isRec p w) = ''Recording in progress...''"
  using assms unfolding start_ok_iff
  by (auto simp: start_defs)

lemma start_ok_objects:
  assumes "fst (startRecording_try isRec p w) = None" and "displayMedia p = Inr n"
  shows "recorders (startRecording isRec p w) = recorders w @
       [\<lparr>recStream = \<lparr>videoTracks = [nextTrack w], audioTracks = [nextTrack w + 1 + n + 1]\<rparr>,
         recMimeType = ''video/webm;codecs=vp9,opus'', recTimeslice = Some 100,
         recState = RecRecording,
         hScreenStream = \<lparr>videoTracks = [nextTrack w],
                           audioTracks = [nextTrack w + 1 ..< nextTrack w + 1 + n]\<rparr>,
         hMicStream = \<lparr>videoTracks = [], audioTracks = [nextTrack w + 1 + n]\<rparr>,
         hAudioContext = length (contexts w)\<rparr>]"
    and "contexts (startRecording isRec p w) = contexts w @
       [\<lparr>destinationStream = \<lparr>videoTracks = [], audioTracks = [nextTrack w + 1 + n + 1]\<rparr>,
         connected = (if 0 < n then [\<lparr>videoTracks = [], audioTracks = [nextTrack w + 1]\<rparr>] else []) @
                     [\<lparr>videoTracks = [], audioTracks = [nextTrack w + 1 + n]\<rparr>],
         closeCalls = 0\<rparr>]"
    and "onended (startRecording isRec p w) = (onended w)(nextTrack w \<mapsto> isRec)"
    and "nextTrack (startRecording isRec p w) = nextTrack w + 1 + n + 1 + 1"
  using assms unfolding start_ok_iff
  by (simp_all add: start_defs del: upt_Suc)

text \<open>
  The three events of a run that nothing interrupts do what the run does in one
  piece, and leave the run settled.
\<close>

lemma startRecording_checks_startRuns:
  "startRuns (snd (startRecording_checks p w)) = startRuns w"
  by (simp add: startRecording_checks_def Let_def)

lemma startRecording_display_startRuns:
  "startRecording_display answer (w\<lparr>startRuns := rs\<rparr>) =
     (fst (startRecording_display answer w), (snd (startRecording_display answer w))\<lparr>startRuns := rs\<rparr>)"
  by (simp add: startRecording_display_def Let_def split: sum.split)

lemma startRecording_rest_startRuns:
  "startRecording_rest isRec s p (w\<lparr>startRuns := rs\<rparr>) =
     (fst (startRecording_rest isRec s p w), (snd (startRecording_rest isRec s p w))\<lparr>startRuns := rs\<rparr>)"
  by (simp add: startRecording_rest_def Let_def split: option.split)

lemma startRecording_display_keeps:
  "startRuns (snd (startRecording_display answer w)) = startRuns w"
  by (simp add: startRecording_display_def Let_def split: sum.split)

lemma start_events_run:
  assumes "\<not> isRecording w" "recordedBlob w = None"
  shows "run w (start_events (length (startRuns w)) p) =
     (if fst (startRecording_checks p w) = None
      then (startRecording False p w)\<lparr>startRuns := startRuns w @ [Settled]\<rparr>
      else startRecording False p w)"
proof -
  let ?k = "length (startRuns w)"
  obtain c w1 where c: "startRecording_checks p w = (c, w1)"
    by (cases "startRecording_checks p w")
  have k: "startRuns w1 = startRuns w"
    using startRecording_checks_startRuns [of p w] by (simp add: c)
  show ?thesis
  proof (cases c)
    case (Some e)
    have 1: "step w (ClickStart p) = startRecording_catch e w1"
      using assms by (simp add: c Some)
    have 2: "startRuns (startRecording_catch e w1) = startRuns w"
      by (simp add: startRecording_catch_def k)
    have 3: "startRecording False p w = startRecording_catch e w1"
      by (simp add: startRecording_def startRecording_try_def c Some)
    show ?thesis
      by (simp add: run_def start_events_def 1 2 3 c Some del: step.simps)
        (simp add: 2)
  next
    case None
    let ?w1 = "w1\<lparr>startRuns := startRuns w @ [AwaitDisplay False]\<rparr>"
    have 1: "step w (ClickStart p) = ?w1"
      using assms by (simp add: c None k)
    obtain d w2 where d: "startRecording_display (displayMedia p) w1 = (d, w2)"
      by (cases "startRecording_display (displayMedia p) w1")
    have k2: "startRuns w2 = startRuns w"
      using startRecording_display_keeps [of "displayMedia p" w1] by (simp add: d k)
    show ?thesis
    proof (cases d)
      case (Inl e)
      let ?w2 = "startRecording_catch e (w2\<lparr>startRuns := startRuns w @ [Settled]\<rparr>)"
      have 2: "step ?w1 (DisplayAnswer ?k (displayMedia p)) = ?w2"
        by (simp add: resume_display_def startRecording_display_startRuns d Inl)
      have 3: "step ?w2 (MicAnswer ?k p) = ?w2"
        by (simp add: startRecording_catch_def)
      have 4: "startRecording False p w = startRecording_catch e w2"
        by (simp add: startRecording_def startRecording_try_def c None d Inl)
      show ?thesis
        by (simp add: run_def start_events_def 1 2 3 del: step.simps)
          (simp add: 4 c None startRecording_catch_def)
    next
      case (Inr s)
      let ?w2 = "w2\<lparr>startRuns := startRuns w @ [AwaitMic False s]\<rparr>"
      have 2: "step ?w1 (DisplayAnswer ?k (displayMedia p)) = ?w2"
        by (simp add: resume_display_def startRecording_display_startRuns d Inr)
      obtain r w3 where r: "startRecording_rest False s p w2 = (r, w3)"
        by (cases "startRecording_rest False s p w2")
      have 3: "step ?w2 (MicAnswer ?k p) =
          (case r of None \<Rightarrow> w3\<lparr>startRuns := startRuns w @ [Settled]\<rparr>
           | Some e \<Rightarrow> startRecording_catch e (w3\<lparr>startRuns := startRuns w @ [Settled]\<rparr>))"
        by (simp add: resume_mic_def startRecording_rest_startRuns r split: option.split)
      have 4: "startRecording False p w =
          (case r of None \<Rightarrow> w3 | Some e \<Rightarrow> startRecording_catch e w3)"
        by (simp add: startRecording_def startRecording_try_def c None d Inr r split: option.split)
      show ?thesis
        by (simp add: run_def start_events_def 1 2 3 del: step.simps)
          (simp add: 4 c None startRecording_catch_def split: option.split)
    qed
  qed
qed

lemma start_events_ok:
  assumes "\<not> isRecording w" "recordedBlob w = None"
      and "fst (startRecording_try False p w) = None"
  shows "run w (start_events (length (startRuns w)) p) =
     (startRecording False p w)\<lparr>startRuns := startRuns w @ [Settled]\<rparr>"
proof -
  have "fst (startRecording_checks p w) = None"
    using assms(3) unfolding start_ok_iff by (simp add: startRecording_checks_def Let_def)
  then show ?thesis
    by (simp add: start_events_run [OF assms(1,2)])
qed

text \<open>
  One session through the buttons: Start and the browser's two answers, data
  segments, Stop, the segments the recorder flushes, the \<^verbatim>\<open>stop\<close> event.
\<close>

lemma session_artifact:
  assumes idle: "\<not> isRecording w" "recordedBlob w = None"
      and ok: "fst (startRecording_try False p w) = None"
  shows "recordedBlob (run w (start_events (length (startRuns w)) p @
            map (DataAvailable (length (recorders w))) ds1 @
            ClickStop # map (DataAvailable (length (recorders w))) ds2 @
            [StopEvent (length (recorders w))]))
         = Some (new_Blob (filter (\<lambda>d. 0 < blob_size d) (ds1 @ ds2)) ''video/webm'')"
    and "recordedChunks (run w (start_events (length (startRuns w)) p @
            map (DataAvailable (length (recorders w))) ds1))
         = filter (\<lambda>d. 0 < blob_size d) ds1"
    and "recordedChunks (run w (start_events (length (startRuns w)) p @
            map (DataAvailable (length (recorders w))) ds1 @
            ClickStop # map (DataAvailable (length (recorders w))) ds2))
         = filter (\<lambda>d. 0 < blob_size d) (ds1 @ ds2)"
proof -
  let ?rid = "length (recorders w)"
  let ?st = "start_events (length (startRuns w)) p"
  let ?w1 = "(startRecording False p w)\<lparr>startRuns := startRuns w @ [Settled]\<rparr>"
  let ?w2 = "?w1\<lparr>recordedChunks := filter (\<lambda>d. 0 < blob_size d) ds1\<rparr>"
  let ?w3 = "step ?w2 ClickStop"
  let ?w4 = "?w3\<lparr>recordedChunks := filter (\<lambda>d. 0 < blob_size d) (ds1 @ ds2)\<rparr>"
  note f = start_ok_state [OF ok]
  have 1: "run w ?st = ?w1"
    by (rule start_events_ok [OF idle ok])
  have 2: "run ?w1 (map (DataAvailable ?rid) ds1) = ?w2"
    using f by (subst run_data) simp_all
  have 3: "recorders ?w3 = (recorders ?w1)[?rid := (recorders ?w1 ! ?rid)\<lparr>recState := RecFinalizing\<rparr>]
           \<and> recordedChunks ?w3 = filter (\<lambda>d. 0 < blob_size d) ds1"
    using f by (simp add: stopRecording_def recorder_stop_def)
  have 4: "run ?w3 (map (DataAvailable ?rid) ds2) = ?w4"
    using f 3 by (subst run_data) simp_all
  have 5: "recordedBlob (step ?w4 (StopEvent ?rid))
             = Some (new_Blob (filter (\<lambda>d. 0 < blob_size d) (ds1 @ ds2)) ''video/webm'')"
    using f 3 by (simp add: onstop_def effect_recordedBlob_def Let_def split: option.split)
  show "recordedBlob (run w (?st @ map (DataAvailable ?rid) ds1 @
            ClickStop # map (DataAvailable ?rid) ds2 @ [StopEvent ?rid]))
         = Some (new_Blob (filter (\<lambda>d. 0 < blob_size d) (ds1 @ ds2)) ''video/webm'')"
    by (simp only: run_Cons run_append run_Nil 1 2 4 5)
  show "recordedChunks (run w (?st @ map (DataAvailable ?rid) ds1))
         = filter (\<lambda>d. 0 < blob_size d) ds1"
    by (simp add: run_append 1 2 del: step.simps)
  show "recordedChunks (run w (?st @ map (DataAvailable ?rid) ds1 @
            ClickStop # map (DataAvailable ?rid) ds2))
         = filter (\<lambda>d. 0 < blob_size d) (ds1 @ ds2)"
    by (simp add: run_Cons run_append 1 2 4 del: step.simps)
qed

subsection \<open>Failures of \<^verbatim>\<open>startRecording\<close>\<close>

text \<open>
  Claim C1. When the display capture is granted and the microphone is refused,
  \<^verbatim>\<open>startRecording\<close> ends in its \<^verbatim>\<open>catch\<close> block, which sets the two
  texts and nothing else: the \<open>1 + n\<close> tracks of the display capture were
  allocated, no \<^verbatim>\<open>track.stop()\<close> was called on any of them, and no recorder or
  audio context refers to them. The capture is not released; only the
  \<^verbatim>\<open>onstop\<close> handler of a recording that started ever stops tracks.
\<close>

theorem mic_failure_leaks_display:
  assumes "mediaDevices p" "getDisplayMediaPresent p" "isSecureContext p"
      and "displayMedia p = Inr n" "userMedia p = Some e"
  shows "error (startRecording isRec p w) = ''Failed to start recording: '' @ err_text e \<and>
         nextTrack (startRecording isRec p w) = nextTrack w + 1 + n \<and>
         stopCalls (startRecording isRec p w) = stopCalls w \<and>
         recorders (startRecording isRec p w) = recorders w \<and>
         contexts (startRecording isRec p w) = contexts w"
  using assms by (simp add: start_defs)

theorem mic_failure_leaks_display_witness:
  "error (startRecording False mic_denied init) = ''Failed to start recording: Permission denied'' \<and>
   nextTrack (startRecording False mic_denied init) = 2 \<and>
   stopCalls (startRecording False mic_denied init) = [] \<and>
   recorders (startRecording False mic_denied init) = [] \<and>
   contexts (startRecording False mic_denied init) = []"
proof -
  have p: "mediaDevices mic_denied" "getDisplayMediaPresent mic_denied" "isSecureContext mic_denied"
    "displayMedia mic_denied = Inr 1" "userMedia mic_denied = Some (ErrorObj ''Permission denied'')"
    by (simp_all add: mic_denied_def all_granted_def)
  show ?thesis
    using mic_failure_leaks_display [OF p, of False init] by (simp add: init_def)
qed

text \<open>
  Every failing run ends with the error text \<^verbatim>\<open>Failed to start recording: \<close>
  followed by the message of what was thrown (by \<open>start_failure_kind\<close>, what
  the first failing sub-step threw), the status text back at
  \<^verbatim>\<open>Ready to record\<close> and the recording flag as it was.
\<close>

lemma start_failure_texts:
  assumes "fst (startRecording_try isRec p w) = Some e"
  shows "error (startRecording isRec p w) = ''Failed to start recording: '' @ err_text e \<and>
         status (startRecording isRec p w) = ''Ready to record'' \<and>
         isRecording (startRecording isRec p w) = isRecording w"
  using startRecording_try_isRecording [OF assms]
  by (simp add: startRecording_failed [OF assms] startRecording_catch_def)

text \<open>
  Claim C2. When everything is granted and \<^verbatim>\<open>mediaRecorder.start(100)\<close>
  throws, the run ends with the error text naming what was thrown and, from a
  state that is not recording, in the state \<open>Errored\<close>; but what the run had
  built stays: \<^verbatim>\<open>mediaRecorderRef\<close> points to the new recorder, which is
  inactive, the new audio context was not closed, the \<open>n + 3\<close> new tracks were
  not stopped, the chunk buffer was emptied and the \<^verbatim>\<open>onended\<close> handler is
  on the display capture's video track. The \<^verbatim>\<open>catch\<close> block rolls nothing
  back, so the state is the error state of a half-built session.
\<close>

theorem start_failure_leaves_partial_session:
  assumes "mediaDevices p" "getDisplayMediaPresent p" "isSecureContext p"
      and "displayMedia p = Inr n" "userMedia p = None" "audioContextThrows p = None"
      and "mediaRecorderThrows p = None" "recorderStartThrows p = Some e"
  shows "error (startRecording isRec p w) = ''Failed to start recording: '' @ err_text e \<and>
         status (startRecording isRec p w) = ''Ready to record'' \<and>
         isRecording (startRecording isRec p w) = isRecording w \<and>
         (\<not> isRecording w \<longrightarrow> session_state (startRecording isRec p w) = Errored) \<and>
         mediaRecorderRef (startRecording isRec p w) = Some (length (recorders w)) \<and>
         length (recorders (startRecording isRec p w)) = Suc (length (recorders w)) \<and>
         recState (recorders (startRecording isRec p w) ! length (recorders w)) = RecInactive \<and>
         length (contexts (startRecording isRec p w)) = Suc (length (contexts w)) \<and>
         closeCalls (contexts (startRecording isRec p w) ! length (contexts w)) = 0 \<and>
         nextTrack (startRecording isRec p w) = nextTrack w + 1 + n + 1 + 1 \<and>
         stopCalls (startRecording isRec p w) = stopCalls w \<and>
         recordedChunks (startRecording isRec p w) = [] \<and>
         onended (startRecording isRec p w) (nextTrack w) = Some isRec"
  using assms by (simp add: start_defs session_state_def del: upt_Suc)

theorem start_failure_leaves_partial_session_witness:
  "error (startRecording False start_throws init)
     = ''Failed to start recording: The operation is not supported.'' \<and>
   session_state (startRecording False start_throws init) = Errored \<and>
   mediaRecorderRef (startRecording False start_throws init) = Some 0 \<and>
   recState (recorders (startRecording False start_throws init) ! 0) = RecInactive \<and>
   closeCalls (contexts (startRecording False start_throws init) ! 0) = 0 \<and>
   nextTrack (startRecording False start_throws init) = 4 \<and>
   stopCalls (startRecording False start_throws init) = []"
proof -
  have p: "mediaDevices start_throws" "getDisplayMediaPresent start_throws"
    "isSecureContext start_throws" "displayMedia start_throws = Inr 1"
    "userMedia start_throws = None" "audioContextThrows start_throws = None"
    "mediaRecorderThrows start_throws = None"
    "recorderStartThrows start_throws = Some (ErrorObj ''The operation is not supported.'')"
    by (simp_all add: start_throws_def all_granted_def)
  show ?thesis
    using start_failure_leaves_partial_session [OF p, of False init] by (simp add: init_def)
qed

text \<open>
  Claim C9. A failed run of \<^verbatim>\<open>startRecording\<close> leaves the stored artifact
  \<^verbatim>\<open>recordedBlob\<close>, its preview handle \<^verbatim>\<open>previewUrl\<close> and the object URLs
  behind it as they were, and the recording flag too: of the five state
  variables only the error text and the status text change, and they are all
  the \<^verbatim>\<open>catch\<close> block changes in the world the \<^verbatim>\<open>try\<close> block left.
\<close>

theorem start_failure_keeps_artifact:
  assumes "fst (startRecording_try isRec p w) = Some e"
  shows "recordedBlob (startRecording isRec p w) = recordedBlob w \<and>
         previewUrl (startRecording isRec p w) = previewUrl w \<and>
         objectUrls (startRecording isRec p w) = objectUrls w \<and>
         isRecording (startRecording isRec p w) = isRecording w \<and>
         startRecording isRec p w =
           (snd (startRecording_try isRec p w))
             \<lparr>error := ''Failed to start recording: '' @ err_text e, status := ''Ready to record''\<rparr>"
  using startRecording_try_frame [of isRec p w] startRecording_try_isRecording [OF assms]
  by (simp add: startRecording_failed [OF assms] startRecording_catch_def)

theorem start_failure_keeps_artifact_witness:
  "recordedBlob (startRecording False mic_denied
      (run init (start_events 0 (all_granted 1) @ [DataAvailable 0 (chunk [1, 2, 3]), ClickStop, StopEvent 0])))
     = Some \<lparr>blobData = [1, 2, 3], blobType = ''video/webm''\<rparr> \<and>
   previewUrl (startRecording False mic_denied
      (run init (start_events 0 (all_granted 1) @ [DataAvailable 0 (chunk [1, 2, 3]), ClickStop, StopEvent 0])))
     = Some 0 \<and>
   objectUrls (startRecording False mic_denied
      (run init (start_events 0 (all_granted 1) @ [DataAvailable 0 (chunk [1, 2, 3]), ClickStop, StopEvent 0])))
     = [(0, \<lparr>blobData = [1, 2, 3], blobType = ''video/webm''\<rparr>)]"
proof -
  let ?w = "run init (start_events 0 (all_granted 1) @ [DataAvailable 0 (chunk [1, 2, 3]), ClickStop, StopEvent 0])"
  have f: "fst (startRecording_try False mic_denied ?w) = Some (ErrorObj ''Permission denied'')"
    by (simp add: start_failure_kind mic_denied_def all_granted_def)
  have w: "recordedBlob ?w = Some \<lparr>blobData = [1, 2, 3], blobType = ''video/webm''\<rparr>"
     "previewUrl ?w = Some 0"
     "objectUrls ?w = [(0, \<lparr>blobData = [1, 2, 3], blobType = ''video/webm''\<rparr>)]"
    by (simp_all add: run_simps)
  have "recordedBlob (startRecording False mic_denied ?w) = recordedBlob ?w"
    "previewUrl (startRecording False mic_denied ?w) = previewUrl ?w"
    "objectUrls (startRecording False mic_denied ?w) = objectUrls ?w"
    using start_failure_keeps_artifact [OF f] by blast+
  then show ?thesis
    by (simp only: w simp_thms)
qed

subsection \<open>The audio graph and the combined stream\<close>

text \<open>
  Claim C8. After a run of \<^verbatim>\<open>startRecording\<close> that succeeds, for the recorder
  \<open>r\<close> it created and the audio context \<open>a\<close> of that run: the streams connected
  to the destination are the microphone capture, preceded by a stream of its own
  holding the first audio track of the display capture exactly when the display
  capture has an audio track; the destination's stream has one audio track, which
  is none of the captures' tracks; and the recorder's stream is made of the
  display capture's video tracks and that one track, whether or not the display
  capture had audio.
\<close>

theorem mixer_connections:
  assumes "fst (startRecording_try isRec p w) = None"
  shows "let w' = startRecording isRec p w;
             r = recorders w' ! length (recorders w);
             a = contexts w' ! hAudioContext r
         in displayMedia p = Inr (length (audioTracks (hScreenStream r))) \<and>
            connected a =
              (case audioTracks (hScreenStream r) of
                 [] \<Rightarrow> []
               | t # ts \<Rightarrow> [\<lparr>videoTracks = [], audioTracks = [t]\<rparr>]) @ [hMicStream r] \<and>
            length (audioTracks (hMicStream r)) = 1 \<and>
            length (audioTracks (destinationStream a)) = 1 \<and>
            set (audioTracks (destinationStream a)) \<inter> set (session_tracks r) = {} \<and>
            recStream r = \<lparr>videoTracks = videoTracks (hScreenStream r),
                           audioTracks = audioTracks (destinationStream a)\<rparr>"
proof -
  from assms obtain n where n: "displayMedia p = Inr n"
    unfolding start_ok_iff by blast
  note o = start_ok_objects [OF assms n]
  show ?thesis
    unfolding Let_def o using n
    by (cases n) (simp_all add: session_tracks_def getTracks_def upt_conv_Cons del: upt_Suc)
qed

theorem mixer_connections_witness:
  "connected (contexts (startRecording False (all_granted 1) init) ! 0) =
     [\<lparr>videoTracks = [], audioTracks = [1]\<rparr>, \<lparr>videoTracks = [], audioTracks = [2]\<rparr>] \<and>
   recStream (recorders (startRecording False (all_granted 1) init) ! 0) =
     \<lparr>videoTracks = [0], audioTracks = [3]\<rparr> \<and>
   connected (contexts (startRecording False (all_granted 0) init) ! 0) =
     [\<lparr>videoTracks = [], audioTracks = [1]\<rparr>] \<and>
   recStream (recorders (startRecording False (all_granted 0) init) ! 0) =
     \<lparr>videoTracks = [0], audioTracks = [2]\<rparr>"
proof -
  have ok: "fst (startRecording_try False (all_granted n) init) = None" for n
    by (simp add: start_ok_iff all_granted_def)
  have r: "recorders (startRecording False (all_granted n) init) ! 0 =
      \<lparr>recStream = \<lparr>videoTracks = [0], audioTracks = [n + 2]\<rparr>,
        recMimeType = ''video/webm;codecs=vp9,opus'', recTimeslice = Some 100,
        recState = RecRecording,
        hScreenStream = \<lparr>videoTracks = [0], audioTracks = [1 ..< 1 + n]\<rparr>,
        hMicStream = \<lparr>videoTracks = [], audioTracks = [n + 1]\<rparr>,
        hAudioContext = 0\<rparr>" for n
    by (simp add: start_defs all_granted_def init_def del: upt_Suc)
  have a: "contexts (startRecording False (all_granted n) init) ! 0 =
      \<lparr>destinationStream = \<lparr>videoTracks = [], audioTracks = [n + 2]\<rparr>,
        connected = (if 0 < n then [\<lparr>videoTracks = [], audioTracks = [1]\<rparr>] else []) @
                    [\<lparr>videoTracks = [], audioTracks = [n + 1]\<rparr>],
        closeCalls = 0\<rparr>" for n
    by (simp add: start_defs all_granted_def init_def del: upt_Suc)
  have i: "length (recorders init) = 0"
    by (simp add: init_def)
  show ?thesis
    using mixer_connections [OF ok [of 1]] mixer_connections [OF ok [of 0]]
    by (simp add: Let_def i r a)
qed

subsection \<open>Chunks and the artifact\<close>

text \<open>
  Claim C7. In a session started from a state without artifact, the chunk buffer
  holds exactly the data segments of non-zero size, in the order the recorder
  emitted them (\<open>ds1\<close> while recording, \<open>ds2\<close> flushed after
  \<^verbatim>\<open>stop()\<close>); the artifact stored when the \<^verbatim>\<open>stop\<close> event fires is their
  concatenation in that order, its size is the sum of their sizes, and its type
  is \<^verbatim>\<open>video/webm\<close>.
\<close>

theorem artifact_is_chunks_in_order:
  assumes "\<not> isRecording w" "recordedBlob w = None"
      and "fst (startRecording_try False p w) = None"
  shows "recordedChunks (run w (start_events (length (startRuns w)) p @
            map (DataAvailable (length (recorders w))) ds1 @
            ClickStop # map (DataAvailable (length (recorders w))) ds2))
           = filter (\<lambda>d. 0 < blob_size d) (ds1 @ ds2) \<and>
         (\<exists>b. recordedBlob (run w (start_events (length (startRuns w)) p @
                  map (DataAvailable (length (recorders w))) ds1 @
                  ClickStop # map (DataAvailable (length (recorders w))) ds2 @
                  [StopEvent (length (recorders w))])) = Some b \<and>
              blobData b = concat (map blobData (filter (\<lambda>d. 0 < blob_size d) (ds1 @ ds2))) \<and>
              blob_size b = sum_list (map blob_size (filter (\<lambda>d. 0 < blob_size d) (ds1 @ ds2))) \<and>
              blobType b = ''video/webm'')"
  using session_artifact(1,3) [OF assms, of ds1 ds2]
  by (simp add: new_Blob_size) (simp add: new_Blob_def)

theorem artifact_is_chunks_in_order_witness:
  "recordedChunks (run init (start_events 0 (all_granted 1) @
       map (DataAvailable 0) [chunk [1, 2], chunk [], chunk [3]] @ ClickStop #
       map (DataAvailable 0) [chunk [4, 5, 6]])) = [chunk [1, 2], chunk [3], chunk [4, 5, 6]] \<and>
   recordedBlob (run init (start_events 0 (all_granted 1) @
       map (DataAvailable 0) [chunk [1, 2], chunk [], chunk [3]] @ ClickStop #
       map (DataAvailable 0) [chunk [4, 5, 6]] @ [StopEvent 0]))
     = Some \<lparr>blobData = [1, 2, 3, 4, 5, 6], blobType = ''video/webm''\<rparr>"
proof -
  have a: "\<not> isRecording init" "recordedBlob init = None"
    by (simp_all add: init_def)
  have i: "length (recorders init) = 0" "length (startRuns init) = 0"
    by (simp_all add: init_def)
  have ok: "fst (startRecording_try False (all_granted 1) init) = None"
    by (simp add: start_ok_iff all_granted_def)
  show ?thesis
    using artifact_is_chunks_in_order [OF a ok, of "[chunk [1, 2], chunk [], chunk [3]]" "[chunk [4, 5, 6]]",
        unfolded i]
    by (auto simp: chunk_def blob_size_def)
qed

text \<open>
  Claim C4, as the code has it. The claim says \<^verbatim>\<open>resetRecording\<close> clears the
  chunk buffer; it does not: after a completed session of one chunk the buffer
  still holds that chunk after the reset.
\<close>

theorem reset_keeps_chunk_buffer_counterexample:
  "session_state (run init (start_events 0 (all_granted 1) @ [DataAvailable 0 (chunk [1, 2, 3]),
       ClickStop, StopEvent 0])) = Completed \<and>
   recordedChunks (resetRecording (run init (start_events 0 (all_granted 1) @
       [DataAvailable 0 (chunk [1, 2, 3]), ClickStop, StopEvent 0]))) = [chunk [1, 2, 3]]"
  by (simp add: run_simps)

text \<open>
  Claim C4, amended. From a state that is not recording, \<^verbatim>\<open>resetRecording\<close>
  clears the artifact, the preview handle (whose URL the effect's cleanup
  revokes) and the error text, sets the status text to \<^verbatim>\<open>Ready to record\<close>,
  and the session is \<open>Idle\<close>; the chunk buffer is left as it is. It is line 79
  of the next \<^verbatim>\<open>startRecording\<close> that empties the buffer, so the artifact of
  the next session holds the chunks of that session only.
\<close>

theorem reset_clears_artifact:
  assumes "\<not> isRecording w"
  shows "recordedBlob (resetRecording w) = None \<and>
         previewUrl (resetRecording w) = None \<and>
         error (resetRecording w) = [] \<and>
         status (resetRecording w) = ''Ready to record'' \<and>
         session_state (resetRecording w) = Idle \<and>
         recordedChunks (resetRecording w) = recordedChunks w \<and>
         (recordedBlob w \<noteq> None \<longrightarrow> effectCleanup (resetRecording w) = None) \<and>
         (fst (startRecording_try False p (resetRecording w)) = None \<longrightarrow>
            recordedBlob (run (resetRecording w)
               (start_events (length (startRuns w)) p @
                map (DataAvailable (length (recorders w))) ds1 @
                ClickStop # map (DataAvailable (length (recorders w))) ds2 @
                [StopEvent (length (recorders w))]))
            = Some (new_Blob (filter (\<lambda>d. 0 < blob_size d) (ds1 @ ds2)) ''video/webm''))"
proof -
  have f: "recordedBlob (resetRecording w) = None" "previewUrl (resetRecording w) = None"
    "error (resetRecording w) = []" "status (resetRecording w) = ''Ready to record''"
    "recordedChunks (resetRecording w) = recordedChunks w"
    "isRecording (resetRecording w) = isRecording w"
    "recorders (resetRecording w) = recorders w"
    "startRuns (resetRecording w) = startRuns w"
    by (simp_all add: resetRecording_def effect_recordedBlob_def Let_def split: option.split)
  have c: "recordedBlob w \<noteq> None \<longrightarrow> effectCleanup (resetRecording w) = None"
    by (simp add: resetRecording_def effect_recordedBlob_def Let_def split: option.split)
  have s: "session_state (resetRecording w) = Idle"
    using assms by (simp add: session_state_def f)
  have idle: "\<not> isRecording (resetRecording w)"
    using assms by (simp add: f)
  show ?thesis
    using session_artifact(1) [OF idle f(1), of p ds1 ds2] c
    by (simp add: f s)
qed

theorem reset_clears_artifact_witness:
  "recordedBlob (resetRecording (run init (start_events 0 (all_granted 1) @
       [DataAvailable 0 (chunk [1, 2, 3]), ClickStop, StopEvent 0]))) = None \<and>
   session_state (resetRecording (run init (start_events 0 (all_granted 1) @
       [DataAvailable 0 (chunk [1, 2, 3]), ClickStop, StopEvent 0]))) = Idle \<and>
   recordedBlob (run (resetRecording (run init (start_events 0 (all_granted 1) @
       [DataAvailable 0 (chunk [1, 2, 3]), ClickStop, StopEvent 0])))
     (start_events 1 (all_granted 0) @ [DataAvailable 1 (chunk [9]), ClickStop, StopEvent 1]))
     = Some \<lparr>blobData = [9], blobType = ''video/webm''\<rparr>"
proof -
  let ?w = "run init (start_events 0 (all_granted 1) @
       [DataAvailable 0 (chunk [1, 2, 3]), ClickStop, StopEvent 0])"
  have a: "\<not> isRecording ?w" "length (recorders ?w) = 1" "length (startRuns ?w) = 1"
    by (simp_all add: run_simps)
  have ok: "fst (startRecording_try False (all_granted 0) (resetRecording ?w)) = None"
    by (simp add: start_ok_iff all_granted_def)
  show ?thesis
    using reset_clears_artifact [OF a(1), of "all_granted 0" "[chunk [9]]" "[]", unfolded a(2,3)] ok
    by (simp add: new_Blob_def chunk_simps)
qed

subsection \<open>Starting and stopping\<close>

text \<open>
  Claim C3. The \<^verbatim>\<open>onended\<close> handler that \<^verbatim>\<open>startRecording\<close> puts on the
  display capture's video track (\<open>nextTrack w\<close> is that track) reads the
  \<^verbatim>\<open>isRecording\<close> of the render that created the callback. The Start button
  exists only in a render where that is false, so when the track ends, after
  any data segments, the handler does nothing: the world is the one before the
  event, the session is still \<open>Recording\<close> and no artifact is stored.
\<close>

theorem video_ended_is_ignored:
  assumes "\<not> isRecording w" "recordedBlob w = None"
      and "fst (startRecording_try False p w) = None"
  shows "videoTracks (hScreenStream (recorders (run w (start_events (length (startRuns w)) p))
             ! length (recorders w)))
           = [nextTrack w] \<and>
         run w (start_events (length (startRuns w)) p @
             map (DataAvailable (length (recorders w))) ds @ [TrackEnded (nextTrack w)])
           = run w (start_events (length (startRuns w)) p @
               map (DataAvailable (length (recorders w))) ds) \<and>
         session_state (run w (start_events (length (startRuns w)) p @
             map (DataAvailable (length (recorders w))) ds @
             [TrackEnded (nextTrack w)])) = Recording \<and>
         recordedBlob (run w (start_events (length (startRuns w)) p @
             map (DataAvailable (length (recorders w))) ds @
             [TrackEnded (nextTrack w)])) = None"
proof -
  let ?rid = "length (recorders w)"
  let ?st = "start_events (length (startRuns w)) p"
  let ?w1 = "(startRecording False p w)\<lparr>startRuns := startRuns w @ [Settled]\<rparr>"
  let ?w2 = "?w1\<lparr>recordedChunks := filter (\<lambda>d. 0 < blob_size d) ds\<rparr>"
  from assms(3) obtain n where n: "displayMedia p = Inr n"
    unfolding start_ok_iff by blast
  note f = start_ok_state [OF assms(3)]
  note o = start_ok_objects [OF assms(3) n]
  have 1: "run w ?st = ?w1"
    by (rule start_events_ok [OF assms])
  have 2: "run ?w1 (map (DataAvailable ?rid) ds) = ?w2"
    using f by (subst run_data) simp_all
  have 3: "step ?w2 (TrackEnded (nextTrack w)) = ?w2"
    by (simp add: o onended_handler_def)
  have v: "videoTracks (hScreenStream (recorders (run w ?st) ! ?rid)) = [nextTrack w]"
    by (simp add: 1 o)
  have r: "run w (?st @ map (DataAvailable ?rid) ds @ [TrackEnded (nextTrack w)]) = ?w2"
    by (simp only: run_Cons run_append run_Nil 1 2 3)
  have r': "run w (?st @ map (DataAvailable ?rid) ds) = ?w2"
    by (simp only: run_append 1 2)
  show ?thesis
    using f assms(2) by (simp add: v r r' session_state_def)
qed

theorem video_ended_is_ignored_witness:
  "run init (start_events 0 (all_granted 1) @ [DataAvailable 0 (chunk [1, 2, 3]), TrackEnded 0])
     = run init (start_events 0 (all_granted 1) @ [DataAvailable 0 (chunk [1, 2, 3])]) \<and>
   session_state (run init (start_events 0 (all_granted 1) @
       [DataAvailable 0 (chunk [1, 2, 3]), TrackEnded 0])) = Recording \<and>
   recordedBlob (run init (start_events 0 (all_granted 1) @
       [DataAvailable 0 (chunk [1, 2, 3]), TrackEnded 0])) = None \<and>
   map recState (recorders (run init (start_events 0 (all_granted 1) @
       [DataAvailable 0 (chunk [1, 2, 3]), TrackEnded 0]))) = [RecRecording] \<and>
   stopCalls (run init (start_events 0 (all_granted 1) @
       [DataAvailable 0 (chunk [1, 2, 3]), TrackEnded 0])) = []"
proof -
  have a: "\<not> isRecording init" "recordedBlob init = None"
    by (simp_all add: init_def)
  have i: "length (recorders init) = 0" "nextTrack init = 0" "length (startRuns init) = 0"
    by (simp_all add: init_def)
  have ok: "fst (startRecording_try False (all_granted 1) init) = None"
    by (simp add: start_ok_iff all_granted_def)
  have w: "map recState (recorders (run init (start_events 0 (all_granted 1) @
         [DataAvailable 0 (chunk [1, 2, 3])]))) = [RecRecording]"
    "stopCalls (run init (start_events 0 (all_granted 1) @ [DataAvailable 0 (chunk [1, 2, 3])])) = []"
    by (simp_all add: run_simps)
  have t: "run init (start_events 0 (all_granted 1) @ [DataAvailable 0 (chunk [1, 2, 3]), TrackEnded 0])
       = run init (start_events 0 (all_granted 1) @ [DataAvailable 0 (chunk [1, 2, 3])])"
    "session_state (run init (start_events 0 (all_granted 1) @
         [DataAvailable 0 (chunk [1, 2, 3]), TrackEnded 0])) = Recording"
    "recordedBlob (run init (start_events 0 (all_granted 1) @
         [DataAvailable 0 (chunk [1, 2, 3]), TrackEnded 0])) = None"
    using video_ended_is_ignored [OF a ok, of "[chunk [1, 2, 3]]"]
    unfolding i list.map append.simps by blast+
  show ?thesis
    by (simp only: t(1) t(2,3) [unfolded t(1)] w simp_thms)
qed

text \<open>
  Claim C5. A click on Start sets neither \<^verbatim>\<open>isRecording\<close> nor
  \<^verbatim>\<open>recordedBlob\<close>, so the Start button, rendered when both are unset, is
  still rendered while the run waits for the browser: the session then reads
  \<open>RequestingPermissions\<close>, not \<open>Idle\<close>. A second click starts a second run,
  and when the browser grants both, two recorders are recording at the same
  time, \<^verbatim>\<open>mediaRecorderRef\<close> pointing to the second.
\<close>

theorem second_click_starts_second_recorder:
  "(\<not> isRecording w \<and> recordedBlob w = None \<longrightarrow>
      \<not> isRecording (step w (ClickStart p)) \<and> recordedBlob (step w (ClickStart p)) = None) \<and>
   session_state (run init [ClickStart (all_granted 1)]) = RequestingPermissions \<and>
   startRuns (run init [ClickStart (all_granted 1), ClickStart (all_granted 1)])
     = [AwaitDisplay False, AwaitDisplay False] \<and>
   map recState (recorders (run init double_start)) = [RecRecording, RecRecording] \<and>
   isRecording (run init double_start) \<and>
   mediaRecorderRef (run init double_start) = Some 1"
proof -
  have "\<not> isRecording (step w (ClickStart p)) \<and> recordedBlob (step w (ClickStart p)) = None"
    if "\<not> isRecording w" "recordedBlob w = None"
    using that
    by (simp add: startRecording_checks_def startRecording_catch_def Let_def)
  moreover have "session_state (run init [ClickStart (all_granted 1)]) = RequestingPermissions"
    "startRuns (run init [ClickStart (all_granted 1), ClickStart (all_granted 1)])
       = [AwaitDisplay False, AwaitDisplay False]"
    "map recState (recorders (run init double_start)) = [RecRecording, RecRecording]"
    "isRecording (run init double_start)"
    "mediaRecorderRef (run init double_start) = Some 1"
    by (simp_all add: run_simps)
  ultimately show ?thesis
    by blast
qed

theorem second_click_starts_second_recorder_witness:
  "map recState (recorders (run init double_start)) = [RecRecording, RecRecording] \<and>
   mediaRecorderRef (run init double_start) = Some 1"
  using second_click_starts_second_recorder [of init "all_granted 1"] by blast

text \<open>
  Once a session is orphaned it stays so, whatever happens: the only call of
  \<^verbatim>\<open>stop()\<close> is on \<^verbatim>\<open>mediaRecorderRef.current\<close>, which every later run
  moves further on.
\<close>

lemma orphaned_frame:
  assumes "recorders w' = recorders w" "mediaRecorderRef w' = mediaRecorderRef w"
  shows "orphaned w' = orphaned w"
  by (simp add: orphaned_def assms)

lemma orphaned_rest:
  "orphaned w \<Longrightarrow> orphaned (snd (startRecording_rest isRec s p w))"
  by (auto simp: orphaned_def startRecording_rest_def Let_def nth_append split: option.splits)

lemma orphaned_stopRecording:
  "orphaned w \<Longrightarrow> orphaned (stopRecording isRec w)"
  by (auto simp: orphaned_def stopRecording_def recorder_stop_def split: option.splits)

lemma orphaned_step:
  assumes "orphaned w"
  shows "orphaned (step w e)"
proof (cases e)
  case (ClickStart p)
  have "orphaned (snd (startRecording_checks p w)) = orphaned w"
    by (rule orphaned_frame) (simp_all add: startRecording_checks_def Let_def)
  then show ?thesis
    using assms ClickStart
    by (cases "startRecording_checks p w")
      (auto simp: orphaned_def startRecording_catch_def split: option.splits)
next
  case (DisplayAnswer k answer)
  have "orphaned (resume_display k isRec answer w) = orphaned w" for isRec
    by (rule orphaned_frame)
      (simp_all add: resume_display_def startRecording_display_def startRecording_catch_def Let_def
         split: sum.split)
  then show ?thesis
    using assms DisplayAnswer by (simp split: start_run.split)
next
  case (MicAnswer k p)
  have "orphaned (resume_mic k isRec s p w)" for isRec s
  proof -
    have "orphaned (w\<lparr>startRuns := (startRuns w)[k := Settled]\<rparr>)"
      using assms by (simp add: orphaned_def)
    from orphaned_rest [OF this, of isRec s p] show ?thesis
      by (cases "startRecording_rest isRec s p (w\<lparr>startRuns := (startRuns w)[k := Settled]\<rparr>)")
        (auto simp: resume_mic_def orphaned_def startRecording_catch_def split: option.splits)
  qed
  then show ?thesis
    using assms MicAnswer by (simp split: start_run.split)
next
  case ClickStop
  then show ?thesis using assms by (simp add: orphaned_stopRecording)
next
  case (ClickDownload stamp)
  have "orphaned (downloadRecording (recordedBlob w) stamp w) = orphaned w"
    by (rule orphaned_frame) (simp_all add: downloadRecording_def split: option.split)
  with ClickDownload show ?thesis using assms by simp
next
  case ClickReset
  have "orphaned (resetRecording w) = orphaned w"
    by (rule orphaned_frame)
      (simp_all add: resetRecording_def effect_recordedBlob_def Let_def split: option.split)
  with ClickReset show ?thesis using assms by simp
next
  case (DataAvailable rid d)
  have "orphaned (ondataavailable d w) = orphaned w"
    by (rule orphaned_frame) (simp_all add: ondataavailable_def)
  with DataAvailable show ?thesis using assms by simp
next
  case (StopEvent rid)
  have "orphaned (onstop r w') = orphaned w'" for r w'
    by (rule orphaned_frame)
      (simp_all add: onstop_def effect_recordedBlob_def Let_def split: option.split)
  then show ?thesis
    using assms StopEvent by (auto simp: orphaned_def nth_list_update)
next
  case (TrackEnded t)
  then show ?thesis
    using assms by (simp add: onended_handler_def orphaned_stopRecording split: option.split)
qed

lemma orphaned_run: "orphaned w \<Longrightarrow> orphaned (run w evs)"
  by (induction evs arbitrary: w) (simp_all add: run_def orphaned_step del: step.simps)

lemma orphaned_double:
  "orphaned (run init (double_start @ [ClickStop, StopEvent 1]))"
  unfolding orphaned_def by (simp add: run_simps)

text \<open>
  Claim C6. After the two runs of \<open>double_start\<close>, Stop and the \<^verbatim>\<open>stop\<close>
  event of the second recorder release the second session once and the first
  not at all: the first recorder is still recording, its audio context open and
  its tracks live. \<^verbatim>\<open>isRecording\<close> is unset, so a further click on Stop
  does nothing, and \<^verbatim>\<open>mediaRecorderRef\<close> points to the second recorder, so
  nothing stops the first one: its \<^verbatim>\<open>stop\<close> event has nothing to fire on,
  and after any further events \<open>evs\<close> the first recorder is still recording,
  so the \<^verbatim>\<open>onstop\<close> handler that would release its session never runs.
\<close>

theorem orphaned_session_is_not_released:
  "map recState (recorders (run init (double_start @ [ClickStop, StopEvent 1])))
     = [RecRecording, RecStopped] \<and>
   releases (run init (double_start @ [ClickStop, StopEvent 1]))
     (recorders (run init (double_start @ [ClickStop, StopEvent 1])) ! 1) 1 \<and>
   releases (run init (double_start @ [ClickStop, StopEvent 1]))
     (recorders (run init (double_start @ [ClickStop, StopEvent 1])) ! 0) 0 \<and>
   stopCalls (run init (double_start @ [ClickStop, StopEvent 1])) = [3, 2, 6] \<and>
   session_tracks (recorders (run init (double_start @ [ClickStop, StopEvent 1])) ! 0) = [1, 0, 4] \<and>
   map closeCalls (contexts (run init (double_start @ [ClickStop, StopEvent 1]))) = [0, 1] \<and>
   isRecording (run init (double_start @ [ClickStop, StopEvent 1])) = False \<and>
   mediaRecorderRef (run init (double_start @ [ClickStop, StopEvent 1])) = Some 1 \<and>
   run init (double_start @ [ClickStop, StopEvent 1, ClickStop, StopEvent 0])
     = run init (double_start @ [ClickStop, StopEvent 1]) \<and>
   recState (recorders (run init ((double_start @ [ClickStop, StopEvent 1]) @ evs)) ! 0)
     = RecRecording"
proof -
  let ?w = "run init (double_start @ [ClickStop, StopEvent 1])"
  have o: "recState (recorders (run init ((double_start @ [ClickStop, StopEvent 1]) @ evs)) ! 0)
      = RecRecording"
    using orphaned_run [OF orphaned_double, of evs]
    by (simp only: run_append orphaned_def)
  have w: "map recState (recorders ?w) = [RecRecording, RecStopped]"
    "stopCalls ?w = [3, 2, 6]" "map closeCalls (contexts ?w) = [0, 1]"
    "isRecording ?w = False" "mediaRecorderRef ?w = Some 1"
    "session_tracks (recorders ?w ! 0) = [1, 0, 4]"
    "session_tracks (recorders ?w ! 1) = [3, 2, 6]"
    "hAudioContext (recorders ?w ! 0) = 0" "hAudioContext (recorders ?w ! 1) = 1"
    by (simp_all add: run_simps session_tracks_def)
  have s: "recState (recorders ?w ! 0) = RecRecording"
    by (simp add: run_simps)
  have c: "closeCalls (contexts ?w ! 0) = 0" "closeCalls (contexts ?w ! 1) = 1"
    by (simp_all add: run_simps)
  have r1: "releases ?w (recorders ?w ! 1) 1" and r0: "releases ?w (recorders ?w ! 0) 0"
    unfolding releases_def w c by simp_all
  have e: "run init (double_start @ [ClickStop, StopEvent 1, ClickStop, StopEvent 0]) = ?w"
  proof -
    have "run init (double_start @ [ClickStop, StopEvent 1, ClickStop, StopEvent 0])
        = step (step ?w ClickStop) (StopEvent 0)"
      by (simp add: run_def del: step.simps)
    also have "step ?w ClickStop = ?w"
      unfolding step.simps w(4) by simp
    also have "step ?w (StopEvent 0) = ?w"
      unfolding step.simps s by simp
    finally show ?thesis .
  qed
  show ?thesis
    by (simp only: w r1 r0 e o simp_thms)
qed

theorem orphaned_session_is_not_released_witness:
  "releases (run init (double_start @ [ClickStop, StopEvent 1]))
     (recorders (run init (double_start @ [ClickStop, StopEvent 1])) ! 0) 0 \<and>
   map recState (recorders (run init (double_start @ [ClickStop, StopEvent 1])))
     = [RecRecording, RecStopped]"
  using orphaned_session_is_not_released [of "[]"] by blast

subsection \<open>Download\<close>

text \<open>
  Claim C10. \<^verbatim>\<open>downloadRecording\<close> does nothing when there is no artifact, and
  with one it leaves the recording flag, the artifact, the chunk buffer, the
  status text, the error text, the preview handle and the recorder reference as
  they were.
\<close>

theorem downloadRecording_frame:
  "downloadRecording None stamp w = w \<and>
   isRecording (downloadRecording blob stamp w) = isRecording w \<and>
   recordedBlob (downloadRecording blob stamp w) = recordedBlob w \<and>
   recordedChunks (downloadRecording blob stamp w) = recordedChunks w \<and>
   status (downloadRecording blob stamp w) = status w \<and>
   error (downloadRecording blob stamp w) = error w \<and>
   previewUrl (downloadRecording blob stamp w) = previewUrl w \<and>
   mediaRecorderRef (downloadRecording blob stamp w) = mediaRecorderRef w"
  by (simp add: downloadRecording_def split: option.split)

end
